theory Spec2Isabelle
  imports Complex_Main "HOL-Library.Char_ord" "HOL-Library.List_Lexorder" "HOL-Library.Product_Lexorder"
begin

section \<open>Text helpers of the notebook\<close>

text \<open>
  A cell of an object column of a pandas frame is a string or missing (NaN / None):
  \<open>string option\<close>. The string methods of a column (\<open>.str.extract\<close>, \<open>.str.strip\<close>,
  \<open>.str.upper\<close>) leave a missing cell missing. Strings are modelled over single-byte
  characters; \<open>upper\<close> is Python's \<open>str.upper\<close> on ASCII letters and \<open>is_space\<close> is
  \<open>str.isspace\<close> on the ASCII range.
\<close>

datatype error = ValueError | KeyError | TypeError | OverflowError | AnalysisException

definition is_space :: "char \<Rightarrow> bool" where
  "is_space c = (c \<in> set [CHR 0x09, CHR 0x0A, CHR 0x0B, CHR 0x0C, CHR 0x0D,
                           CHR 0x1C, CHR 0x1D, CHR 0x1E, CHR 0x1F, CHR '' ''])"

definition str_strip :: "string \<Rightarrow> string" where
  "str_strip s = rev (dropWhile is_space (rev (dropWhile is_space s)))"

definition upper_char :: "char \<Rightarrow> char" where
  "upper_char c =
     (case map_of (zip ''abcdefghijklmnopqrstuvwxyz'' ''ABCDEFGHIJKLMNOPQRSTUVWXYZ'') c of
        Some u \<Rightarrow> u
      | None \<Rightarrow> c)"

definition str_upper :: "string \<Rightarrow> string" where
  "str_upper s = map upper_char s"

text \<open>
  The regular expressions of the notebook, each as the search \<open>.str.extract\<close> performs:
  the first capture group of the leftmost match, \<open>None\<close> when nothing matches.
\<close>

text \<open>\<^verbatim>\<open>-([^-]+)\<close>: a dash followed by at least one character that is not a dash.\<close>

fun re_after_dash :: "string \<Rightarrow> string option" where
  "re_after_dash [] = None"
| "re_after_dash (c # cs) =
     (if c = CHR ''-'' \<and> takeWhile (\<lambda>x. x \<noteq> CHR ''-'') cs \<noteq> []
      then Some (takeWhile (\<lambda>x. x \<noteq> CHR ''-'') cs)
      else re_after_dash cs)"







text \<open>
  \<open>clean_field(df, col, regex)\<close>: three assignments to \<open>df[col]\<close>, then the column is
  returned. The frame is a list of rows; the column is given by its reader and its
  writer. The frame is mutated in place, so the model returns the updated frame
  together with the returned column.
\<close>

definition set_col :: "(string option \<Rightarrow> 'r \<Rightarrow> 'r) \<Rightarrow> string option list \<Rightarrow> 'r list \<Rightarrow> 'r list" where
  "set_col put vs df = map (\<lambda>(v, r). put v r) (zip vs df)"

definition clean_field ::
  "('r \<Rightarrow> string option) \<Rightarrow> (string option \<Rightarrow> 'r \<Rightarrow> 'r) \<Rightarrow> (string \<Rightarrow> string option)
     \<Rightarrow> 'r list \<Rightarrow> 'r list \<times> string option list" where
  "clean_field get put regex df =
     (let df1 = set_col put (map (\<lambda>r. Option.bind (get r) regex) df) df;
          df2 = set_col put (map (\<lambda>r. map_option str_strip (get r)) df1) df1;
          df3 = set_col put (map (\<lambda>r. map_option str_upper (get r)) df2) df2
      in (df3, map get df3))"

section \<open>Left joins\<close>

text \<open>
  \<open>pd.merge(left, right, left_on, right_on, how='left')\<close>: the rows of the left frame in
  their order; each is paired with every right row that carries the same key, in the
  order of the right frame, and with no right row when none carries it. pandas matches
  a missing key with a missing key, so keys are compared as they are.
\<close>

definition merge_left :: "('l \<Rightarrow> 'k) \<Rightarrow> ('r \<Rightarrow> 'k) \<Rightarrow> 'l list \<Rightarrow> 'r list \<Rightarrow> ('l \<times> 'r option) list" where
  "merge_left kl kr L R =
     concat (map (\<lambda>l. case filter (\<lambda>r. kr r = kl l) R of
                         [] \<Rightarrow> [(l, None)]
                       | ms \<Rightarrow> map (\<lambda>r. (l, Some r)) ms) L)"

section \<open>Airport dimension builder\<close>

record port_row =
  i94port :: "string option"
  port :: "string option"
  addr :: "string option"

record airport =
  ident :: "string option"
  type :: "string option"
  name :: "string option"
  elevation_ft :: "rat option"
  continent :: "string option"
  iso_country :: "string option"
  iso_region :: "string option"
  municipality :: "string option"
  gps_code :: "string option"
  iata_code :: "string option"
  local_code :: "string option"
  coordinates :: "string option"

text \<open>The joined frame: the columns of the port lookup, then those of the airport table
  without \<open>ident\<close>, which is dropped after the join.\<close>

record airport_dwh =
  i94port :: "string option"
  port :: "string option"
  addr :: "string option"
  type :: "string option"
  name :: "string option"
  elevation_ft :: "rat option"
  continent :: "string option"
  iso_country :: "string option"
  iso_region :: "string option"
  municipality :: "string option"
  gps_code :: "string option"
  iata_code :: "string option"
  local_code :: "string option"
  coordinates :: "string option"

record airport_dwh_region = airport_dwh +
  iso_region_state :: "string option"

record airport_dwh_flagged = airport_dwh_region +
  false_join :: bool

definition joined_row :: "port_row \<times> airport option \<Rightarrow> airport_dwh" where
  "joined_row lr =
     (case lr of (l, r) \<Rightarrow>
        \<lparr> i94port = port_row.i94port l, port = port_row.port l, addr = port_row.addr l,
          type = Option.bind r airport.type,
          name = Option.bind r airport.name,
          elevation_ft = Option.bind r airport.elevation_ft,
          continent = Option.bind r airport.continent,
          iso_country = Option.bind r airport.iso_country,
          iso_region = Option.bind r airport.iso_region,
          municipality = Option.bind r airport.municipality,
          gps_code = Option.bind r airport.gps_code,
          iata_code = Option.bind r airport.iata_code,
          local_code = Option.bind r airport.local_code,
          coordinates = Option.bind r airport.coordinates \<rparr>)"

definition airport_join :: "port_row list \<Rightarrow> airport list \<Rightarrow> airport_dwh list" where
  "airport_join df_port df_airport =
     map joined_row (merge_left port_row.i94port airport.ident df_port df_airport)"

text \<open>
  \<open>df_airport_dwh['iso_region_state'] = clean_field(df_airport_dwh, 'iso_region', r'-([^-]+)')\<close>
\<close>

definition derive_region_state :: "airport_dwh list \<Rightarrow> airport_dwh_region list" where
  "derive_region_state df =
     (case clean_field iso_region (\<lambda>v r. r\<lparr>iso_region := v\<rparr>) re_after_dash df of
        (df', col) \<Rightarrow>
          map (\<lambda>(v, r). airport_dwh.extend r (airport_dwh_region.fields v)) (zip col df'))"

text \<open>
  The comparison \<open>!=\<close> of two object columns: a missing value on either side makes the
  comparison true, also when both are missing.
\<close>

definition pd_ne :: "string option \<Rightarrow> string option \<Rightarrow> bool" where
  "pd_ne a b = (case a of None \<Rightarrow> True
                | Some x \<Rightarrow> (case b of None \<Rightarrow> True | Some y \<Rightarrow> x \<noteq> y))"

definition is_outlier :: "airport_dwh_region \<Rightarrow> bool" where
  "is_outlier r = (type r \<noteq> None \<and> pd_ne (iso_region_state r) (addr r))"

text \<open>The frame carries the index \<open>0, 1, ...\<close> that the join gave it; the filter keeps
  the labels of the rows it keeps.\<close>

definition df_airport_dwh_outliers :: "airport_dwh_region list \<Rightarrow> (nat \<times> airport_dwh_region) list" where
  "df_airport_dwh_outliers df = filter (\<lambda>(i, r). is_outlier r) (enumerate 0 df)"

definition flag_false_join :: "airport_dwh_region list \<Rightarrow> airport_dwh_flagged list" where
  "flag_false_join df =
     map (\<lambda>(i, r). airport_dwh_region.extend r
                     (airport_dwh_flagged.fields (i \<in> set (map fst (df_airport_dwh_outliers df)))))
         (enumerate 0 df)"

definition airport_dimension :: "port_row list \<Rightarrow> airport list \<Rightarrow> airport_dwh_flagged list" where
  "airport_dimension df_port df_airport =
     flag_false_join (derive_region_state (airport_join df_port df_airport))"

definition region_state_of :: "string option \<Rightarrow> string option" where
  "region_state_of v = map_option str_upper (map_option str_strip (Option.bind v re_after_dash))"

definition after_last_dash :: "string \<Rightarrow> string" where
  "after_last_dash s = rev (takeWhile (\<lambda>x. x \<noteq> CHR ''-'') (rev s))"

definition port0 :: port_row where
  "port0 = \<lparr> port_row.i94port = Some ''ABC'', port_row.port = Some ''ALPHA'',
             port_row.addr = Some ''CA'' \<rparr>"

definition airport0 :: airport where
  "airport0 = \<lparr> airport.ident = Some ''ABC'', airport.type = Some ''small_airport'',
      airport.name = Some ''Alpha Field'', airport.elevation_ft = Some 11,
      airport.continent = Some ''NA'', airport.iso_country = Some ''US'',
      airport.iso_region = Some ''US-U-A'', airport.municipality = None,
      airport.gps_code = None, airport.iata_code = None, airport.local_code = None,
      airport.coordinates = Some ''0, 0'' \<rparr>"


text \<open>A port without a state code, and an airport of that code whose region code holds
  no dash.\<close>

definition port1 :: port_row where
  "port1 = \<lparr> port_row.i94port = Some ''JKL'', port_row.port = Some ''GAMMA'',
             port_row.addr = None \<rparr>"

definition airport1 :: airport where
  "airport1 = airport0\<lparr> airport.ident := Some ''JKL'', airport.iso_region := Some ''USCA'' \<rparr>"

section \<open>Immigration cleaner\<close>

text \<open>
  The immigration table is a Spark data frame: a list of column names and a list of
  rows, each row giving a cell to every column name. A cell of a double column is
  null, NaN or a number; the other constructors are the integers the casts produce,
  strings, and the calendar dates (year, month, day) the date conversion produces.
\<close>

datatype cell = Null | NaN | Num rat | IntV int | Str string | DateV int int int

record sdf =
  cols :: "string list"
  recs :: "(string \<Rightarrow> cell) list"

text \<open>
  \<open>count(when(isnan(c) | col(c).isNull(), c)) / df_sas_total_rows\<close>: the number of rows
  whose cell is NaN or null, over the number of rows. \<open>isnan\<close> is applied to every
  column: on a string column Spark casts the text to double first, so a text that casts
  to NaN counts. That cast is Spark's and no part of the notebook: \<open>casts_to_nan\<close> says
  of a text whether its cast to double is NaN. The quotient and its comparison with
  \<open>0.9\<close> are taken over the rationals. With no rows the quotient is null, and the
  comparison \<open>None > 0.9\<close> raises.
\<close>

fun isnan :: "(string \<Rightarrow> bool) \<Rightarrow> cell \<Rightarrow> bool" where
  "isnan casts_to_nan NaN = True"
| "isnan casts_to_nan (Str s) = casts_to_nan s"
| "isnan casts_to_nan v = False"

definition df_sas_nulls :: "(string \<Rightarrow> bool) \<Rightarrow> sdf \<Rightarrow> string \<Rightarrow> rat option" where
  "df_sas_nulls casts_to_nan df c =
     (if recs df = [] then None
      else Some (of_nat (length (filter (\<lambda>r. isnan casts_to_nan (r c) \<or> r c = Null) (recs df)))
                 / of_nat (length (recs df))))"

definition empty_cols :: "(string \<Rightarrow> bool) \<Rightarrow> sdf \<Rightarrow> error + string list" where
  "empty_cols casts_to_nan df =
     (if recs df = [] \<and> cols df \<noteq> [] then Inl TypeError
      else Inr (filter (\<lambda>c. case df_sas_nulls casts_to_nan df c of
                               None \<Rightarrow> False
                             | Some q \<Rightarrow> q > 9 / 10)
                       (cols df)))"

text \<open>\<open>df.drop(*names)\<close>: the named columns are removed; a name that is no column is
  ignored. A removed column reads as null in the row model.\<close>

definition drop_cols :: "string list \<Rightarrow> sdf \<Rightarrow> sdf" where
  "drop_cols names df =
     \<lparr> cols = filter (\<lambda>c. c \<notin> set names) (cols df),
       recs = map (\<lambda>r c. if c \<in> set names then Null else r c) (recs df) \<rparr>"

definition df_sas_clean_a :: "(string \<Rightarrow> bool) \<Rightarrow> sdf \<Rightarrow> error + sdf" where
  "df_sas_clean_a casts_to_nan df =
     (case empty_cols casts_to_nan df of
        Inl e \<Rightarrow> Inl e
      | Inr names \<Rightarrow> Inr (drop_cols names df))"

text \<open>\<open>dropna(how='all', subset=['cicid'])\<close>: the column must exist; the rows whose
  \<open>cicid\<close> is null, or NaN in a double column, are removed. A text is never missing
  here: \<open>dropna\<close> looks for NaN in float and double columns only.\<close>

definition is_missing :: "cell \<Rightarrow> bool" where
  "is_missing v = (v = NaN \<or> v = Null)"

definition df_sas_clean_b :: "sdf \<Rightarrow> error + sdf" where
  "df_sas_clean_b df =
     (if ''cicid'' \<notin> set (cols df) then Inl AnalysisException
      else Inr (df\<lparr>recs := filter (\<lambda>r. \<not> is_missing (r ''cicid'')) (recs df)\<rparr>))"

text \<open>
  \<open>cast('integer')\<close> of a cell: null stays null, NaN becomes 0, a number is truncated
  towards zero and saturates at the bounds of a 32-bit integer. The cast of a string is
  Spark's string parser, which is no part of the notebook: it is the parameter
  \<open>parse\<close>. A date has no integer cast and becomes null.
\<close>

definition trunc :: "rat \<Rightarrow> int" where
  "trunc q = (if 0 \<le> q then \<lfloor>q\<rfloor> else \<lceil>q\<rceil>)"

definition sat32 :: "int \<Rightarrow> int" where
  "sat32 i = max (- 2147483648) (min 2147483647 i)"

fun cast_integer :: "(string \<Rightarrow> int option) \<Rightarrow> cell \<Rightarrow> cell" where
  "cast_integer parse Null = Null"
| "cast_integer parse NaN = IntV 0"
| "cast_integer parse (Num q) = IntV (sat32 (trunc q))"
| "cast_integer parse (IntV i) = IntV i"
| "cast_integer parse (Str s) = (case parse s of None \<Rightarrow> Null | Some i \<Rightarrow> IntV i)"
| "cast_integer parse (DateV y m d) = Null"

definition integer_cols :: "string list" where
  "integer_cols = [''cicid'', ''i94yr'', ''i94mon'', ''i94cit'', ''i94res'', ''arrdate'',
                   ''i94mode'', ''i94bir'', ''count'', ''i94visa'', ''depdate'', ''biryear'',
                   ''admnum'']"

definition df_sas_clean_c :: "(string \<Rightarrow> int option) \<Rightarrow> sdf \<Rightarrow> error + sdf" where
  "df_sas_clean_c parse df =
     (if \<not> set integer_cols \<subseteq> set (cols df) then Inl AnalysisException
      else Inr (df\<lparr>recs := map (\<lambda>r c. if c \<in> set integer_cols then cast_integer parse (r c)
                                        else r c) (recs df)\<rparr>))"

subsection \<open>Date conversion\<close>

text \<open>
  \<open>date_add_(days)\<close> (here \<open>date_add\<close>) adds \<open>timedelta(days)\<close> to the datetime 1960-01-01. Python's
  \<open>datetime\<close> turns the date into its proleptic Gregorian ordinal (day 1 is 0001-01-01),
  adds the days, and turns the ordinal back into year, month and day; a result outside
  the years 1 to 9999, or a \<open>timedelta\<close> of more than 999999999 days, raises
  \<open>OverflowError\<close>. The functions below are those of the \<open>datetime\<close> module.
\<close>

definition is_leap :: "int \<Rightarrow> bool" where
  "is_leap year = (year mod 4 = 0 \<and> (year mod 100 \<noteq> 0 \<or> year mod 400 = 0))"

definition days_before_year :: "int \<Rightarrow> int" where
  "days_before_year year =
     (let y = year - 1 in y * 365 + y div 4 - y div 100 + y div 400)"

definition DAYS_IN_MONTH :: "int \<Rightarrow> int" where
  "DAYS_IN_MONTH month = [0, 31, 28, 31, 30, 31, 30, 31, 31, 30, 31, 30, 31] ! nat month"

definition DAYS_BEFORE_MONTH :: "int \<Rightarrow> int" where
  "DAYS_BEFORE_MONTH month =
     [0, 0, 31, 59, 90, 120, 151, 181, 212, 243, 273, 304, 334] ! nat month"

definition days_in_month :: "int \<Rightarrow> int \<Rightarrow> int" where
  "days_in_month year month =
     (if month = 2 \<and> is_leap year then 29 else DAYS_IN_MONTH month)"

definition days_before_month :: "int \<Rightarrow> int \<Rightarrow> int" where
  "days_before_month year month =
     DAYS_BEFORE_MONTH month + (if month > 2 \<and> is_leap year then 1 else 0)"

definition ymd2ord :: "int \<times> int \<times> int \<Rightarrow> int" where
  "ymd2ord date =
     (case date of (year, month, day) \<Rightarrow>
        days_before_year year + days_before_month year month + day)"

definition ord2ymd :: "int \<Rightarrow> int \<times> int \<times> int" where
  "ord2ymd ordinal =
     (let n = ordinal - 1;
          n400 = n div 146097; n = n mod 146097;
          year = n400 * 400 + 1;
          n100 = n div 36524; n = n mod 36524;
          n4 = n div 1461; n = n mod 1461;
          n1 = n div 365; n = n mod 365;
          year = year + n100 * 100 + n4 * 4 + n1
      in if n1 = 4 \<or> n100 = 4 then (year - 1, 12, 31)
         else
           let leapyear = (n1 = 3 \<and> (n4 \<noteq> 24 \<or> n100 = 3));
               month = (n + 50) div 32;
               preceding = DAYS_BEFORE_MONTH month + (if month > 2 \<and> leapyear then 1 else 0)
           in if preceding > n
              then (year, month - 1,
                    n - (preceding - (DAYS_IN_MONTH (month - 1)
                                      + (if month - 1 = 2 \<and> leapyear then 1 else 0))) + 1)
              else (year, month, n - preceding + 1))"

definition MAXORDINAL :: int where
  "MAXORDINAL = 3652059"

definition epoch :: "int \<times> int \<times> int" where
  "epoch = (1960, 1, 1)"

definition date_add :: "int \<Rightarrow> error + int \<times> int \<times> int" where
  "date_add days =
     (if \<bar>days\<bar> > 999999999 then Inl OverflowError
      else let ordinal = ymd2ord epoch + days
           in if 0 < ordinal \<and> ordinal \<le> MAXORDINAL then Inr (ord2ymd ordinal)
              else Inl OverflowError)"

text \<open>A calendar date: a year from 1 to 9999, a month, a day of that month.\<close>

definition valid_date :: "int \<times> int \<times> int \<Rightarrow> bool" where
  "valid_date date =
     (case date of (year, month, day) \<Rightarrow>
        1 \<le> year \<and> year \<le> 9999 \<and> 1 \<le> month \<and> month \<le> 12
        \<and> 1 \<le> day \<and> day \<le> days_in_month year month)"

text \<open>
  The user-defined function applied to a cell of a column: an integer is converted;
  a null cell reaches Python as \<open>None\<close>, on which \<open>timedelta\<close> raises \<open>TypeError\<close>, as
  it does on a string or a date; a float that is no whole number of days is outside
  the dates this development models and is treated likewise.
\<close>

fun date_add_udf :: "cell \<Rightarrow> error + cell" where
  "date_add_udf (IntV n) =
     (case date_add n of Inl e \<Rightarrow> Inl e | Inr (y, m, d) \<Rightarrow> Inr (DateV y m d))"
| "date_add_udf v = Inl TypeError"

fun with_column :: "string \<Rightarrow> (cell \<Rightarrow> error + cell) \<Rightarrow> (string \<Rightarrow> cell) list
                      \<Rightarrow> error + (string \<Rightarrow> cell) list" where
  "with_column c f [] = Inr []"
| "with_column c f (r # rs) =
     (case f (r c) of
        Inl e \<Rightarrow> Inl e
      | Inr v \<Rightarrow> (case with_column c f rs of
                    Inl e \<Rightarrow> Inl e
                  | Inr rs' \<Rightarrow> Inr (r(c := v) # rs')))"

text \<open>Spark evaluates lazily; the model is the table that an action reading every
  column yields, so a cell on which the conversion raises fails the step.\<close>

definition df_sas_clean_d :: "sdf \<Rightarrow> error + sdf" where
  "df_sas_clean_d df =
     (if ''arrdate'' \<notin> set (cols df) \<or> ''depdate'' \<notin> set (cols df) then Inl AnalysisException
      else case with_column ''arrdate'' date_add_udf (recs df) of
             Inl e \<Rightarrow> Inl e
           | Inr rs \<Rightarrow> (case with_column ''depdate'' date_add_udf rs of
                          Inl e \<Rightarrow> Inl e
                        | Inr rs' \<Rightarrow> Inr (df\<lparr>recs := rs'\<rparr>)))"

definition df_sas_clean_e :: "sdf \<Rightarrow> sdf" where
  "df_sas_clean_e df = drop_cols [''i94yr'', ''i94mon''] df"

definition immigration_cleaner ::
  "(string \<Rightarrow> bool) \<Rightarrow> (string \<Rightarrow> int option) \<Rightarrow> sdf \<Rightarrow> error + sdf" where
  "immigration_cleaner casts_to_nan parse df_sas =
     (case df_sas_clean_a casts_to_nan df_sas of Inl e \<Rightarrow> Inl e | Inr a \<Rightarrow>
      case df_sas_clean_b a of Inl e \<Rightarrow> Inl e | Inr b \<Rightarrow>
      case df_sas_clean_c parse b of Inl e \<Rightarrow> Inl e | Inr c \<Rightarrow>
      case df_sas_clean_d c of Inl e \<Rightarrow> Inl e | Inr d \<Rightarrow>
      Inr (df_sas_clean_e d))"



text \<open>A raw table of two travellers that carry the same \<open>cicid\<close>.\<close>

definition dup0 :: sdf where
  "dup0 = \<lparr> cols = integer_cols @ [''i94port''],
            recs = [(\<lambda>c. Num 1)(''i94port'' := Str ''NYC'', ''i94bir'' := Num 30),
                    (\<lambda>c. Num 1)(''i94port'' := Str ''LAX'', ''i94bir'' := Num 40)] \<rparr>"

text \<open>The cells of a double column: null, NaN or a number (an integer once it is cast).\<close>

fun numeric_cell :: "cell \<Rightarrow> bool" where
  "numeric_cell (Str s) = False"
| "numeric_cell (DateV y m d) = False"
| "numeric_cell v = True"

section \<open>Weather dimension builder\<close>

text \<open>The country lookup: the key is the text before \<open>=\<close> while the table is parsed and
  an integer once it has been cast.\<close>

record 'k cntyl_row =
  i94cntyl :: "'k"
  country :: "string option"

text \<open>The weather table: the date is text in the raw table and a parsed date (or NaT)
  afterwards.\<close>

record 'd weather =
  date :: "'d"
  average_temperature :: "rat option"
  average_temperature_uncertainty :: "rat option"
  country :: "string option"

record 'd weather_dwh = "'d weather" +
  i94cntyl :: "int option"

text \<open>\<open>.str.upper().astype(str)\<close>: a missing value becomes the text \<open>nan\<close>.\<close>

definition upper_astype_str :: "string option \<Rightarrow> string option" where
  "upper_astype_str v = (case v of None \<Rightarrow> Some ''nan'' | Some s \<Rightarrow> Some (str_upper s))"

text \<open>
  Preparation of the weather table: the country is uppercased, the date parsed and the
  rows without a temperature removed. \<open>pd.to_datetime\<close> is a parameter: it gives the
  parsed date, or \<open>None\<close> where it raises; a missing date stays missing.
\<close>

fun parse_dates :: "(string \<Rightarrow> 'd option) \<Rightarrow> string option weather list
                      \<Rightarrow> error + 'd option weather list" where
  "parse_dates to_datetime [] = Inr []"
| "parse_dates to_datetime (r # rs) =
     (case (case weather.date r of None \<Rightarrow> Inr None
            | Some s \<Rightarrow> (case to_datetime s of None \<Rightarrow> Inl ValueError | Some d \<Rightarrow> Inr (Some d))) of
        Inl e \<Rightarrow> Inl e
      | Inr d \<Rightarrow> (case parse_dates to_datetime rs of
                    Inl e \<Rightarrow> Inl e
                  | Inr rs' \<Rightarrow>
                      Inr (\<lparr> weather.date = d,
                             weather.average_temperature = weather.average_temperature r,
                             weather.average_temperature_uncertainty =
                               weather.average_temperature_uncertainty r,
                             weather.country = weather.country r \<rparr> # rs')))"

definition prepare_weather :: "(string \<Rightarrow> 'd option) \<Rightarrow> string option weather list
                                 \<Rightarrow> error + 'd option weather list" where
  "prepare_weather to_datetime df_weather =
     (case parse_dates to_datetime
             (map (\<lambda>r. r\<lparr>weather.country := upper_astype_str (weather.country r)\<rparr>) df_weather) of
        Inl e \<Rightarrow> Inl e
      | Inr df \<Rightarrow> Inr (filter (\<lambda>r. weather.average_temperature r \<noteq> None) df))"

definition prepare_cntyl :: "int cntyl_row list \<Rightarrow> int cntyl_row list" where
  "prepare_cntyl df_cntyl =
     map (\<lambda>r. r\<lparr>cntyl_row.country := upper_astype_str (cntyl_row.country r)\<rparr>) df_cntyl"

text \<open>\<open>pd.merge(left=df_weather, right=df_cntyl, left_on='country', right_on='country',
  how='left')\<close>\<close>

definition weather_join :: "'d weather list \<Rightarrow> int cntyl_row list \<Rightarrow> 'd weather_dwh list" where
  "weather_join df_weather df_cntyl =
     map (\<lambda>(l, r). weather.extend l (weather_dwh.fields (map_option cntyl_row.i94cntyl r)))
         (merge_left weather.country cntyl_row.country df_weather df_cntyl)"

text \<open>
  \<open>select(c).distinct().toPandas()[c]\<close>: the distinct cells of a column of the cleaned
  immigration table, as a pandas series; an integer cell is its value, every other cell
  is missing. Spark fixes no order for the distinct rows: \<open>arrange\<close> is the order in
  which it returns them, a rearrangement of the list it is given.
\<close>

definition cell_int :: "cell \<Rightarrow> int option" where
  "cell_int v = (case v of IntV i \<Rightarrow> Some i | _ \<Rightarrow> None)"

definition distinct_col ::
  "(int option list \<Rightarrow> int option list) \<Rightarrow> sdf \<Rightarrow> string \<Rightarrow> error + int option list" where
  "distinct_col arrange df c =
     (if c \<notin> set (cols df) then Inl AnalysisException
      else Inr (arrange (remdups (map (\<lambda>r. cell_int (r c)) (recs df)))))"

text \<open>
  The operator \<open>+\<close> on two pandas series adds them element by element, aligned on the
  index \<open>0, 1, ...\<close>; where one of the two has no value or a missing one, the sum is
  missing.
\<close>

fun series_add :: "int option list \<Rightarrow> int option list \<Rightarrow> int option list" where
  "series_add [] ys = map (\<lambda>y. None) ys"
| "series_add (x # xs) [] = map (\<lambda>y. None) (x # xs)"
| "series_add (x # xs) (y # ys) =
     (case x of None \<Rightarrow> None
      | Some a \<Rightarrow> (case y of None \<Rightarrow> None | Some b \<Rightarrow> Some (a + b))) # series_add xs ys"

text \<open>\<open>list(set(...))\<close> followed by the comprehension that drops the missing values; the
  list is used for membership only.\<close>

definition i94cntyl_in_sas ::
  "(int option list \<Rightarrow> int option list) \<Rightarrow> sdf \<Rightarrow> error + int list" where
  "i94cntyl_in_sas arrange df_immigration_dwh =
     (case distinct_col arrange df_immigration_dwh ''i94cit'' of Inl e \<Rightarrow> Inl e | Inr cit \<Rightarrow>
      case distinct_col arrange df_immigration_dwh ''i94res'' of Inl e \<Rightarrow> Inl e | Inr res \<Rightarrow>
      Inr (remdups (List.map_filter (\<lambda>x. x) (series_add cit res))))"

definition weather_dimension ::
  "(int option list \<Rightarrow> int option list) \<Rightarrow> 'd weather list \<Rightarrow> int cntyl_row list \<Rightarrow> sdf
     \<Rightarrow> error + 'd weather_dwh list" where
  "weather_dimension arrange df_weather df_cntyl df_immigration_dwh =
     (case i94cntyl_in_sas arrange df_immigration_dwh of
        Inl e \<Rightarrow> Inl e
      | Inr codes \<Rightarrow>
          Inr (filter (\<lambda>r. case i94cntyl r of None \<Rightarrow> False | Some c \<Rightarrow> c \<in> set codes)
                 (filter (\<lambda>r. i94cntyl r \<noteq> None) (weather_join df_weather df_cntyl))))"

text \<open>The builder from the raw weather table, the parsed country lookup and the cleaned
  immigration table.\<close>

definition weather_builder ::
  "(string \<Rightarrow> 'd option) \<Rightarrow> (int option list \<Rightarrow> int option list)
     \<Rightarrow> string option weather list \<Rightarrow> int cntyl_row list \<Rightarrow> sdf
     \<Rightarrow> error + 'd option weather_dwh list" where
  "weather_builder to_datetime arrange df_weather df_cntyl df_immigration_dwh =
     (case prepare_weather to_datetime df_weather of
        Inl e \<Rightarrow> Inl e
      | Inr prepared \<Rightarrow>
          weather_dimension arrange prepared (prepare_cntyl df_cntyl) df_immigration_dwh)"

text \<open>The set the builder is meant to compute: the codes that occur, not missing, in the
  origin-country or in the residence-country column.\<close>

definition union_codes :: "sdf \<Rightarrow> int set" where
  "union_codes df =
     {c. Some c \<in> set (map (\<lambda>r. cell_int (r ''i94cit'')) (recs df))
               \<union> set (map (\<lambda>r. cell_int (r ''i94res'')) (recs df))}"

text \<open>A cleaned immigration table of one row, from country 100 with residence 200, and
  weather observations for the countries with the codes 100 and 300.\<close>

definition imm0 :: sdf where
  "imm0 = \<lparr> cols = [''cicid'', ''i94cit'', ''i94res''],
            recs = [(\<lambda>c. Null)(''cicid'' := IntV 1, ''i94cit'' := IntV 100, ''i94res'' := IntV 200)] \<rparr>"

definition cntyl0 :: "int cntyl_row list" where
  "cntyl0 = [\<lparr> cntyl_row.i94cntyl = 100, cntyl_row.country = Some ''ALPHA'' \<rparr>,
            \<lparr> cntyl_row.i94cntyl = 300, cntyl_row.country = Some ''GAMMA'' \<rparr>]"

definition weather0 :: "nat option weather list" where
  "weather0 = [\<lparr> weather.date = Some 1, weather.average_temperature = Some 5,
                 weather.average_temperature_uncertainty = Some 1,
                 weather.country = Some ''ALPHA'' \<rparr>,
               \<lparr> weather.date = Some 1, weather.average_temperature = Some 7,
                 weather.average_temperature_uncertainty = Some 1,
                 weather.country = Some ''GAMMA'' \<rparr>]"

section \<open>Demographic dimension builder\<close>

text \<open>The state summary: the fractions replace the summed counts, and the summed total
  population is dropped once they are taken.\<close>

record demo_dwh =
  state_code :: "string option"
  state :: "string option"
  male_population :: "rat option"
  female_population :: "rat option"
  number_of_veterans :: "rat option"
  foreign_born :: "rat option"
  median_age :: "rat option"
  average_household_size :: "rat option"

record demo_row =
  city :: "string option"
  state :: "string option"
  median_age :: "rat option"
  male_population :: "int option"
  female_population :: "int option"
  total_population :: "int option"
  number_of_veterans :: "int option"
  foreign_born :: "int option"
  average_household_size :: "rat option"
  state_code :: "string option"
  race :: "string option"
  count :: "int option"

text \<open>
  \<open>df.groupby(keys)['count'].agg('sum')\<close>: one row for each value of the keys, in sorted
  order; a row of the table in which a key is missing belongs to no group; the sum
  skips missing counts. The result is a list of index and value.
\<close>

definition count_sum :: "demo_row list \<Rightarrow> int" where
  "count_sum rs = sum_list (map (\<lambda>r. case count r of None \<Rightarrow> 0 | Some n \<Rightarrow> n) rs)"

definition state_race_key :: "demo_row \<Rightarrow> (string \<times> string) option" where
  "state_race_key r =
     (case state_code r of None \<Rightarrow> None
      | Some s \<Rightarrow> (case race r of None \<Rightarrow> None | Some x \<Rightarrow> Some (s, x)))"

definition count_by_state_race :: "demo_row list \<Rightarrow> ((string \<times> string) \<times> int) list" where
  "count_by_state_race df =
     map (\<lambda>k. (k, count_sum (filter (\<lambda>r. state_race_key r = Some k) df)))
         (sort (remdups (List.map_filter state_race_key df)))"

definition count_by_state :: "demo_row list \<Rightarrow> (string \<times> int) list" where
  "count_by_state df =
     map (\<lambda>s. (s, count_sum (filter (\<lambda>r. state_code r = Some s) df)))
         (sort (remdups (List.map_filter state_code df)))"

text \<open>
  \<open>.join(..., rsuffix='_total')\<close> is the left join on the index: each row of the left
  frame is paired with the rows of the right frame that carry its state code.
  \<open>fraction\<close> is the quotient of the two counts, over the rationals. Where pandas
  gives no finite number (the total is zero, or no total was found), the fraction is
  \<open>None\<close>.
\<close>

definition df_demo_race_dwh :: "demo_row list \<Rightarrow> ((string \<times> string) \<times> rat option) list" where
  "df_demo_race_dwh df =
     map (\<lambda>((k, n), found). (k, case found of
                                  None \<Rightarrow> None
                                | Some (s, count_total) \<Rightarrow>
                                    if count_total = 0 then None
                                    else Some (of_int n / of_int count_total)))
         (merge_left (\<lambda>(k, n). fst k) fst (count_by_state_race df) (count_by_state df))"

subsection \<open>State summary\<close>










text \<open>The sum of the fractions of a state in the race distribution.\<close>

definition fraction_sum :: "string \<Rightarrow> ((string \<times> string) \<times> rat option) list \<Rightarrow> rat" where
  "fraction_sum s dwh =
     sum_list (map (\<lambda>(k, f). case f of None \<Rightarrow> 0 | Some q \<Rightarrow> q)
                   (filter (\<lambda>(k, f). fst k = s) dwh))"

definition demo_city :: "string option \<Rightarrow> string option \<Rightarrow> int option \<Rightarrow> demo_row" where
  "demo_city s x n =
     \<lparr> city = Some ''Alpha'', state = Some ''California'', median_age = Some 30,
       male_population = Some 10, female_population = Some 10, total_population = Some 20,
       number_of_veterans = Some 1, foreign_born = Some 2, average_household_size = Some 2,
       state_code = s, race = x, count = n \<rparr>"

section \<open>Dictionary parser\<close>








record mode_row =
  i94mode :: "string option"
  mode :: "string option"

record addr_row =
  i94addr :: "string option"
  state :: "string option"

record visa_row =
  i94visa :: string
  visa :: "string option"






record dictionary =
  df_cntyl :: "int cntyl_row list"
  df_port :: "port_row list"
  df_mode :: "mode_row list"
  df_addr :: "addr_row list"
  df_visa :: "visa_row list"









section \<open>Properties of the joins and of the airport dimension\<close>




lemma length_merge_left_sum:
  "length (merge_left kl kr L R) = (\<Sum>l\<leftarrow>L. max 1 (length (filter (\<lambda>r. kr r = kl l) R)))"
  by (induction L) (auto simp: merge_left_def split: list.splits)

lemma re_after_dash_first:
  assumes "CHR ''-'' \<notin> set pre" "g \<noteq> []" "CHR ''-'' \<notin> set g" "rest = [] \<or> hd rest = CHR ''-''"
  shows "re_after_dash (pre @ CHR ''-'' # g @ rest) = Some g"
  using assms(1)
proof (induction pre)
  case Nil
  have "takeWhile (\<lambda>x. x \<noteq> CHR ''-'') (g @ rest) = g"
  proof -
    have "takeWhile (\<lambda>x. x \<noteq> CHR ''-'') (g @ rest) = g @ takeWhile (\<lambda>x. x \<noteq> CHR ''-'') rest"
      using assms(3) by (intro takeWhile_append2) auto
    moreover have "takeWhile (\<lambda>x. x \<noteq> CHR ''-'') rest = []"
      using assms(4) by (cases rest) auto
    ultimately show ?thesis by simp
  qed
  then show ?case using assms(2) by simp
next
  case (Cons a pre)
  then show ?case by auto
qed

lemma set_col_map: "set_col put (map f df) df = map (\<lambda>r. put (f r) r) df"
  by (induction df) (auto simp: set_col_def)
lemma clean_field_iso_region:
  "clean_field iso_region (\<lambda>v r. r\<lparr>iso_region := v\<rparr>) re_after_dash df =
     (map (\<lambda>r. r\<lparr>iso_region := region_state_of (iso_region r)\<rparr>) df,
      map (\<lambda>r. region_state_of (iso_region r)) df)"
  by (simp add: clean_field_def set_col_map Let_def region_state_of_def o_def)

lemma derive_region_state_eq:
  "derive_region_state df =
     map (\<lambda>r. airport_dwh.extend (r\<lparr>iso_region := region_state_of (iso_region r)\<rparr>)
                 (airport_dwh_region.fields (region_state_of (iso_region r)))) df"
  by (simp add: derive_region_state_def clean_field_iso_region zip_map_map zip_same_conv_map o_def)

lemma enumerate_flag:
  "(i, r) \<in> set (enumerate 0 df) \<Longrightarrow>
     (i \<in> set (map fst (filter (\<lambda>(i, r). Q r) (enumerate 0 df)))) = Q r"
  by (auto simp: in_set_enumerate_eq image_iff)

lemma flag_false_join_eq:
  "flag_false_join df =
     map (\<lambda>r. airport_dwh_region.extend r (airport_dwh_flagged.fields (is_outlier r))) df"
proof -
  have "map (\<lambda>(i, r). airport_dwh_region.extend r
                     (airport_dwh_flagged.fields (i \<in> set (map fst (df_airport_dwh_outliers df)))))
         (enumerate 0 df)
      = map (\<lambda>(i, r). airport_dwh_region.extend r (airport_dwh_flagged.fields (is_outlier r))) (enumerate 0 df)"
  proof (rule map_cong)
    fix x assume x: "x \<in> set (enumerate 0 df)"
    obtain i r where xe: "x = (i, r)" by (cases x)
    have "(i \<in> set (map fst (df_airport_dwh_outliers df))) = is_outlier r"
      unfolding df_airport_dwh_outliers_def using x xe by (intro enumerate_flag) simp
    then show "(case x of (i, r) \<Rightarrow> airport_dwh_region.extend r
                     (airport_dwh_flagged.fields (i \<in> set (map fst (df_airport_dwh_outliers df)))))
        = (case x of (i, r) \<Rightarrow> airport_dwh_region.extend r (airport_dwh_flagged.fields (is_outlier r)))"
      using xe by simp
  qed simp
  also have "\<dots> = map ((\<lambda>r. airport_dwh_region.extend r (airport_dwh_flagged.fields (is_outlier r))) \<circ> snd) (enumerate 0 df)"
    by (rule map_cong) auto
  also have "\<dots> = map (\<lambda>r. airport_dwh_region.extend r (airport_dwh_flagged.fields (is_outlier r))) df"
    by (simp flip: map_map)
  finally show ?thesis by (simp add: flag_false_join_def)
qed

text \<open>
  Claim C6 (amended). In the airport dimension \<open>false_join\<close> is true for a row exactly
  when the row's airport type is present and its derived \<open>iso_region_state\<close> or its
  \<open>addr\<close> is missing or the two are present and differ: the comparison \<open>!=\<close> of the
  frame holds of two missing values. Computing the flag removes no row: without the new
  column the flagged frame is the joined frame, row by row.
\<close>

theorem false_join_flag:
  "map false_join (flag_false_join df)
     = map (\<lambda>r. type r \<noteq> None
                \<and> (iso_region_state r = None \<or> addr r = None
                    \<or> iso_region_state r \<noteq> addr r)) df
   \<and> map airport_dwh_region.truncate (flag_false_join df) = df
   \<and> length (flag_false_join df) = length df"
proof -
  have "is_outlier r = (type r \<noteq> None
                \<and> (iso_region_state r = None \<or> addr r = None
                    \<or> iso_region_state r \<noteq> addr r))" for r
    by (auto simp: is_outlier_def pd_ne_def split: option.splits)
  then show ?thesis
    by (simp add: flag_false_join_eq o_def airport_dwh_region.defs airport_dwh_flagged.defs
          airport_dwh.defs map_idI)
qed

text \<open>The amended claim C6 at a port whose airport lies in another region and a port
  without an airport: the first is flagged, the second is not.\<close>

theorem false_join_flag_witness:
  "map false_join
     (airport_dimension [port0, port0\<lparr>port_row.i94port := Some ''ZZZ''\<rparr>] [airport0])
     = [True, False]"
  using false_join_flag
    [of "derive_region_state
           (airport_join [port0, port0\<lparr>port_row.i94port := Some ''ZZZ''\<rparr>] [airport0])"]
  by (simp add: airport_dimension_def derive_region_state_eq region_state_of_def
        airport_dwh.defs airport_dwh_region.defs airport_join_def merge_left_def
        joined_row_def port0_def airport0_def
        str_upper_def str_strip_def upper_char_def is_space_def)

text \<open>Claim C6 as stated fails: a matched row in which both the derived
  \<open>iso_region_state\<close> and \<open>addr\<close> are missing is flagged, although the two do not
  differ.\<close>

theorem false_join_flag_counterexample:
  "map false_join (airport_dimension [port1] [airport1]) = [True]
   \<and> map type (airport_dimension [port1] [airport1]) = [Some ''small_airport'']
   \<and> map iso_region_state (airport_dimension [port1] [airport1])
       = map addr (airport_dimension [port1] [airport1])"
  by (simp add: airport_dimension_def flag_false_join_eq is_outlier_def pd_ne_def
        derive_region_state_eq region_state_of_def
        airport_dwh.defs airport_dwh_region.defs airport_dwh_flagged.defs
        airport_join_def merge_left_def joined_row_def port1_def airport1_def airport0_def)

lemma re_after_dash_shorter: "re_after_dash s = Some g \<Longrightarrow> length g < length s"
proof (induction s)
  case Nil then show ?case by simp
next
  case (Cons c cs)
  have "length (takeWhile (\<lambda>x. x \<noteq> CHR ''-'') cs) \<le> length cs" by (rule length_takeWhile_le)
  with Cons show ?case by (auto split: if_splits)
qed

lemma str_strip_length: "length (str_strip g) \<le> length g"
proof -
  have "length (str_strip g) \<le> length (dropWhile is_space g)"
    unfolding str_strip_def using length_dropWhile_le[of is_space "rev (dropWhile is_space g)"] by simp
  also have "\<dots> \<le> length g" by (rule length_dropWhile_le)
  finally show ?thesis .
qed

lemma region_state_of_changes: "region_state_of (Some s) \<noteq> Some s"
proof
  assume a: "region_state_of (Some s) = Some s"
  then obtain g where g: "re_after_dash s = Some g" and e: "s = str_upper (str_strip g)"
    by (auto simp: region_state_of_def)
  have "length s \<le> length g" using e str_strip_length[of g] by (simp add: str_upper_def)
  moreover have "length g < length s" using g by (rule re_after_dash_shorter)
  ultimately show False by simp
qed







text \<open>
  Claim C7 (amended). For an airport row whose region code reads \<open>pre-g\<close> followed by
  nothing or by a further dash, where \<open>pre\<close> and \<open>g\<close> hold no dash and \<open>g\<close> is not empty,
  the derived \<open>iso_region_state\<close> is \<open>g\<close>, stripped and uppercased: the part between the
  first dash and the next one. When the code holds one dash only, that is the part
  after the last dash.
\<close>

theorem iso_region_state_first_dash:
  assumes "i < length df"
    and "iso_region (df ! i) = Some (pre @ CHR ''-'' # g @ rest)"
    and "CHR ''-'' \<notin> set pre" and "g \<noteq> []" and "CHR ''-'' \<notin> set g"
    and "rest = [] \<or> hd rest = CHR ''-''"
  shows "iso_region_state (derive_region_state df ! i) = Some (str_upper (str_strip g))
         \<and> (rest = [] \<longrightarrow> g = after_last_dash (pre @ CHR ''-'' # g @ rest))"
proof -
  have "re_after_dash (pre @ CHR ''-'' # g @ rest) = Some g"
    using assms(3-6) by (rule re_after_dash_first)
  then have 1: "iso_region_state (derive_region_state df ! i) = Some (str_upper (str_strip g))"
    using assms(1,2)
    by (simp add: derive_region_state_eq region_state_of_def airport_dwh.defs airport_dwh_region.defs)
  have "takeWhile (\<lambda>x. x \<noteq> CHR ''-'') (rev g @ CHR ''-'' # rev pre) = rev g"
    using assms(5) by (auto simp: takeWhile_tail)
  then have 2: "rest = [] \<longrightarrow> g = after_last_dash (pre @ CHR ''-'' # g @ rest)"
    by (simp add: after_last_dash_def)
  from 1 2 show ?thesis by simp
qed

text \<open>The amended claim C7 at the region code \<open>US-U-A\<close>.\<close>

theorem iso_region_state_first_dash_witness:
  "iso_region_state (derive_region_state (airport_join [port0] [airport0]) ! 0) = Some ''U''"
proof -
  have "iso_region_state (derive_region_state (airport_join [port0] [airport0]) ! 0)
          = Some (str_upper (str_strip ''U''))
        \<and> (''-A'' = [] \<longrightarrow> ''U'' = after_last_dash (''US'' @ CHR ''-'' # ''U'' @ ''-A''))"
    by (rule iso_region_state_first_dash)
       (simp_all add: airport_join_def merge_left_def joined_row_def port0_def airport0_def)
  then show ?thesis by (simp add: str_upper_def str_strip_def upper_char_def is_space_def)
qed

text \<open>Claim C7 as stated fails at the region code \<open>US-U-A\<close>: the derived value is
  \<open>U\<close>, the part after the last dash is \<open>A\<close>.\<close>

theorem iso_region_state_counterexample:
  "iso_region_state (derive_region_state (airport_join [port0] [airport0]) ! 0)
     \<noteq> Some (str_upper (str_strip (after_last_dash ''US-U-A'')))"
  by (simp add: derive_region_state_eq region_state_of_def airport_dwh.defs airport_dwh_region.defs
        airport_join_def merge_left_def joined_row_def port0_def airport0_def
        after_last_dash_def str_upper_def str_strip_def upper_char_def is_space_def)

text \<open>
  Claim C10. \<open>clean_field\<close> overwrites the column it is given: in the airport dimension
  the \<open>iso_region\<close> column equals the \<open>iso_region_state\<close> column, both hold the
  extracted, stripped and uppercased value of the joined frame's \<open>iso_region\<close>, and a
  region code that was present is no longer the value of the column.
\<close>

theorem clean_field_overwrites_iso_region:
  "map iso_region (airport_dimension ports airports)
     = map iso_region_state (airport_dimension ports airports)
   \<and> map iso_region (airport_dimension ports airports)
     = map (\<lambda>r. region_state_of (iso_region r)) (airport_join ports airports)
   \<and> fst (clean_field iso_region (\<lambda>v r. r\<lparr>iso_region := v\<rparr>) re_after_dash df)
     = map (\<lambda>r. r\<lparr>iso_region := region_state_of (iso_region r)\<rparr>) df
   \<and> region_state_of (Some s) \<noteq> Some s"
  by (simp add: airport_dimension_def flag_false_join_eq derive_region_state_eq o_def
        clean_field_iso_region region_state_of_changes
        airport_dwh.defs airport_dwh_region.defs airport_dwh_flagged.defs)

section \<open>Properties of the immigration cleaner\<close>




lemma ymd2ord_epoch: "ymd2ord epoch = 715510"
  by (simp add: ymd2ord_def epoch_def days_before_year_def days_before_month_def
        DAYS_BEFORE_MONTH_def)

lemmas ord2ymd_eval = ord2ymd_def Let_def DAYS_BEFORE_MONTH_def DAYS_IN_MONTH_def

lemma with_column_other:
  "with_column c f rs = Inr rs' \<Longrightarrow> x \<noteq> c \<Longrightarrow> map (\<lambda>r. r x) rs' = map (\<lambda>r. r x) rs"
  by (induction rs arbitrary: rs') (auto split: sum.splits)

text \<open>The half of claim C1 that the cleaner does establish: when the \<open>cicid\<close> column
  of the raw table is numeric, every \<open>cicid\<close> of the cleaned table is an integer, not
  null.\<close>

lemma cleaned_cicid_present:
  assumes ok: "immigration_cleaner casts_to_nan parse df = Inr out"
    and numeric: "\<forall>r\<in>set (recs df). numeric_cell (r ''cicid'')"
    and row: "v \<in> set (map (\<lambda>r. r ''cicid'') (recs out))"
  shows "\<exists>i. v = IntV i"
proof -
  from ok obtain a b c d where
    a: "df_sas_clean_a casts_to_nan df = Inr a" and b: "df_sas_clean_b a = Inr b"
    and c: "df_sas_clean_c parse b = Inr c" and d: "df_sas_clean_d c = Inr d"
    and out: "out = df_sas_clean_e d"
    by (auto simp: immigration_cleaner_def split: sum.splits)
  from b have cic: "''cicid'' \<in> set (cols a)"
    and rb: "recs b = filter (\<lambda>r. \<not> is_missing (r ''cicid'')) (recs a)"
    by (auto simp: df_sas_clean_b_def split: if_splits)
  from a obtain names where a': "a = drop_cols names df" and "empty_cols casts_to_nan df = Inr names"
    by (auto simp: df_sas_clean_a_def split: sum.splits)
  with cic have "''cicid'' \<notin> set names" by (auto simp: drop_cols_def)
  then have ra: "map (\<lambda>r. r ''cicid'') (recs a) = map (\<lambda>r. r ''cicid'') (recs df)"
    by (simp add: a' drop_cols_def o_def)
  from c have rc: "recs c = map (\<lambda>r c. if c \<in> set integer_cols then cast_integer parse (r c) else r c) (recs b)"
    by (auto simp: df_sas_clean_c_def split: if_splits)
  from d obtain rs where "with_column ''arrdate'' date_add_udf (recs c) = Inr rs"
    and "with_column ''depdate'' date_add_udf rs = Inr (recs d)"
    by (auto simp: df_sas_clean_d_def split: if_splits sum.splits)
  then have rd: "map (\<lambda>r. r ''cicid'') (recs d) = map (\<lambda>r. r ''cicid'') (recs c)"
    using with_column_other[of "''arrdate''" date_add_udf "recs c" rs "''cicid''"]
      with_column_other[of "''depdate''" date_add_udf rs "recs d" "''cicid''"] by simp
  have ro: "map (\<lambda>r. r ''cicid'') (recs out) = map (\<lambda>r. r ''cicid'') (recs d)"
    by (simp add: out df_sas_clean_e_def drop_cols_def o_def)
  from row have "v \<in> set (map (\<lambda>r. r ''cicid'') (recs c))" by (simp only: ro rd)
  then obtain r where r: "r \<in> set (recs a)" "\<not> is_missing (r ''cicid'')"
    and v: "v = cast_integer parse (r ''cicid'')"
    by (auto simp: rc rb integer_cols_def)
  from r(1) have "r ''cicid'' \<in> set (map (\<lambda>r. r ''cicid'') (recs df))"
    unfolding ra[symmetric] by simp
  then have "numeric_cell (r ''cicid'')"
    using numeric by auto
  with r(2) show ?thesis unfolding v
    by (cases "r ''cicid''") (auto simp: is_missing_def)
qed

text \<open>
  Claim C1. The cleaner removes the rows without a \<open>cicid\<close> but no row whose \<open>cicid\<close>
  occurs twice: on a raw table of two travellers with the same \<open>cicid\<close>, both rows are
  in the cleaned table, with the same \<open>cicid\<close>.
\<close>

theorem duplicate_cicid_retained:
  "map_sum id (\<lambda>d. map (\<lambda>r. r ''cicid'') (recs d))
     (immigration_cleaner casts_to_nan parse dup0)
     = Inr [IntV 1, IntV 1]"
  by (simp add: immigration_cleaner_def df_sas_clean_a_def empty_cols_def df_sas_nulls_def
        is_missing_def drop_cols_def df_sas_clean_b_def df_sas_clean_c_def df_sas_clean_d_def
        df_sas_clean_e_def dup0_def integer_cols_def trunc_def sat32_def
        date_add_def ymd2ord_epoch MAXORDINAL_def ord2ymd_eval)

section \<open>Properties of the weather dimension\<close>

lemma rearranged_singleton:
  assumes "set (arrange [x]) = set [x]" and "distinct (arrange [x])"
  shows "arrange [x] = [x]"
proof -
  have "length (arrange [x]) = card (set (arrange [x]))"
    using assms(2) by (simp add: distinct_card)
  then have "length (arrange [x]) = 1" using assms(1) by simp
  then obtain y where "arrange [x] = [y]" by (cases "arrange [x]") auto
  with assms(1) show ?thesis by simp
qed

text \<open>In whatever order Spark returns the distinct values, the code list of the
  one-row table is \<open>[300]\<close>.\<close>

lemma i94cntyl_in_sas_any_order:
  assumes "\<And>xs. set (arrange xs) = set xs" and "\<And>xs. distinct xs \<Longrightarrow> distinct (arrange xs)"
  shows "i94cntyl_in_sas arrange imm0 = Inr [300]"
proof -
  have "arrange [Some 100] = [Some 100]" "arrange [Some 200] = [Some 200]"
    using assms by (auto intro!: rearranged_singleton)
  then show ?thesis
    by (simp add: i94cntyl_in_sas_def distinct_col_def imm0_def cell_int_def)
qed

text \<open>
  Claim C2. The builder adds the two series of distinct codes element by element where
  the union is meant: for an immigration table with origin 100 and residence 200 the
  code list is \<open>[300]\<close>, the union is \<open>{100, 200}\<close>; the weather row of country 100 is
  removed and the row of country 300, a code outside the union, is retained.
\<close>

theorem i94cntyl_in_sas_adds_series:
  "i94cntyl_in_sas (\<lambda>xs. xs) imm0 = Inr [300]
   \<and> union_codes imm0 = {100, 200}
   \<and> map_sum id (map i94cntyl) (weather_dimension (\<lambda>xs. xs) weather0 cntyl0 imm0)
       = Inr [Some 300]
   \<and> map i94cntyl (weather_join weather0 cntyl0) = [Some 100, Some 300]"
  apply (intro conjI)
     apply (simp add: i94cntyl_in_sas_def distinct_col_def imm0_def cell_int_def)
    apply (auto simp add: union_codes_def imm0_def cell_int_def)[1]
   apply (simp add: weather_dimension_def i94cntyl_in_sas_def distinct_col_def imm0_def
          cell_int_def weather_join_def merge_left_def weather0_def cntyl0_def
          weather.defs weather_dwh.defs)
  apply (simp add: weather_join_def merge_left_def weather0_def cntyl0_def
         weather.defs weather_dwh.defs)
  done

section \<open>Properties of the date conversion\<close>

lemma month_day:
  fixes k :: int and L :: bool
  assumes "0 \<le> k" "k < 365"
  defines "month \<equiv> (k + 50) div 32"
  defines "preceding \<equiv> DAYS_BEFORE_MONTH month + (if month > 2 \<and> L then 1 else 0)"
  defines "md \<equiv> (if preceding > k
                  then (month - 1,
                        k - (preceding - (DAYS_IN_MONTH (month - 1)
                                          + (if month - 1 = 2 \<and> L then 1 else 0))) + 1)
                  else (month, k - preceding + 1))"
  shows "1 \<le> fst md \<and> fst md \<le> 12 \<and> 1 \<le> snd md
         \<and> snd md \<le> (if fst md = 2 \<and> L then 29 else DAYS_IN_MONTH (fst md))
         \<and> DAYS_BEFORE_MONTH (fst md) + (if fst md > 2 \<and> L then 1 else 0) + snd md = k + 1"
proof -
  have lo: "32 * month \<le> k + 50" and hi: "k + 50 < 32 * month + 32"
    unfolding month_def by linarith+
  then have "1 \<le> month" "month \<le> 12" using assms(1,2) by linarith+
  then have "month = 1 \<or> month = 2 \<or> month = 3 \<or> month = 4 \<or> month = 5 \<or> month = 6
      \<or> month = 7 \<or> month = 8 \<or> month = 9 \<or> month = 10 \<or> month = 11 \<or> month = 12"
    by presburger
  then consider "month = 1" | "month = 2" | "month = 3" | "month = 4" | "month = 5"
    | "month = 6" | "month = 7" | "month = 8" | "month = 9" | "month = 10"
    | "month = 11" | "month = 12" by blast
  then show ?thesis
  proof cases
    case 1 then show ?thesis using lo hi assms(1,2) unfolding md_def preceding_def
      by (simp add: DAYS_BEFORE_MONTH_def DAYS_IN_MONTH_def)
  next
    case 2 then show ?thesis using lo hi assms(1,2) unfolding md_def preceding_def
      by (simp add: DAYS_BEFORE_MONTH_def DAYS_IN_MONTH_def)
  next
    case 3 then show ?thesis using lo hi assms(1,2) unfolding md_def preceding_def
      by (simp add: DAYS_BEFORE_MONTH_def DAYS_IN_MONTH_def)
  next
    case 4 then show ?thesis using lo hi assms(1,2) unfolding md_def preceding_def
      by (simp add: DAYS_BEFORE_MONTH_def DAYS_IN_MONTH_def)
  next
    case 5 then show ?thesis using lo hi assms(1,2) unfolding md_def preceding_def
      by (simp add: DAYS_BEFORE_MONTH_def DAYS_IN_MONTH_def)
  next
    case 6 then show ?thesis using lo hi assms(1,2) unfolding md_def preceding_def
      by (simp add: DAYS_BEFORE_MONTH_def DAYS_IN_MONTH_def)
  next
    case 7 then show ?thesis using lo hi assms(1,2) unfolding md_def preceding_def
      by (simp add: DAYS_BEFORE_MONTH_def DAYS_IN_MONTH_def)
  next
    case 8 then show ?thesis using lo hi assms(1,2) unfolding md_def preceding_def
      by (simp add: DAYS_BEFORE_MONTH_def DAYS_IN_MONTH_def)
  next
    case 9 then show ?thesis using lo hi assms(1,2) unfolding md_def preceding_def
      by (simp add: DAYS_BEFORE_MONTH_def DAYS_IN_MONTH_def)
  next
    case 10 then show ?thesis using lo hi assms(1,2) unfolding md_def preceding_def
      by (simp add: DAYS_BEFORE_MONTH_def DAYS_IN_MONTH_def)
  next
    case 11 then show ?thesis using lo hi assms(1,2) unfolding md_def preceding_def
      by (simp add: DAYS_BEFORE_MONTH_def DAYS_IN_MONTH_def)
  next
    case 12 then show ?thesis using lo hi assms(1,2) unfolding md_def preceding_def
      by (simp add: DAYS_BEFORE_MONTH_def DAYS_IN_MONTH_def)
  qed
qed

lemma year_div:
  fixes q b c d :: int
  assumes "0 \<le> b" "b \<le> 3" "0 \<le> c" "c \<le> 24" "0 \<le> d" "d \<le> 3"
  shows "(400 * q + 100 * b + 4 * c + d) div 4 = 100 * q + 25 * b + c"
    and "(400 * q + 100 * b + 4 * c + d) div 100 = 4 * q + b"
    and "(400 * q + 100 * b + 4 * c + d) div 400 = q"
proof -
  show "(400 * q + 100 * b + 4 * c + d) div 4 = 100 * q + 25 * b + c"
    by (rule int_div_pos_eq[where r = d]) (use assms in auto)
  show "(400 * q + 100 * b + 4 * c + d) div 100 = 4 * q + b"
    by (rule int_div_pos_eq[where r = "4 * c + d"]) (use assms in auto)
  show "(400 * q + 100 * b + 4 * c + d) div 400 = q"
    by (rule int_div_pos_eq[where r = "100 * b + 4 * c + d"]) (use assms in auto)
qed

lemma days_before_year_decomp:
  fixes q b c d :: int
  assumes "0 \<le> b" "b \<le> 3" "0 \<le> c" "c \<le> 24" "0 \<le> d" "d \<le> 3"
  shows "days_before_year (400 * q + 100 * b + 4 * c + d + 1)
           = 146097 * q + 36524 * b + 1461 * c + 365 * d"
  using year_div[OF assms, of q] by (simp add: days_before_year_def Let_def)

lemma mod_zero_iff_top:
  fixes x m :: int
  assumes "1 \<le> x" "x \<le> m"
  shows "(x mod m = 0) = (x = m)"
proof (cases "x = m")
  case True then show ?thesis by simp
next
  case False
  then have "x mod m = x" using assms by simp
  then show ?thesis using assms False by simp
qed

lemma is_leap_decomp:
  fixes q b c d :: int
  assumes "0 \<le> b" "b \<le> 3" "0 \<le> c" "c \<le> 24" "0 \<le> d" "d \<le> 3"
  shows "is_leap (400 * q + 100 * b + 4 * c + d + 1) = (d = 3 \<and> (c \<noteq> 24 \<or> b = 3))"
proof -
  define Y where "Y = 400 * q + 100 * b + 4 * c + d + 1"
  have "Y = (d + 1) + (100 * q + 25 * b + c) * 4" by (simp add: Y_def)
  then have "Y mod 4 = (d + 1) mod 4" by (simp only: mod_mult_self1)
  moreover have "((d + 1) mod 4 = 0) = (d + 1 = 4)"
    by (rule mod_zero_iff_top) (use assms in linarith)+
  ultimately have m4: "(Y mod 4 = 0) = (d = 3)" by auto
  have "Y = (4 * c + d + 1) + (4 * q + b) * 100" by (simp add: Y_def)
  then have "Y mod 100 = (4 * c + d + 1) mod 100" by (simp only: mod_mult_self1)
  moreover have "((4 * c + d + 1) mod 100 = 0) = (4 * c + d + 1 = 100)"
    by (rule mod_zero_iff_top) (use assms in linarith)+
  moreover have "(4 * c + d + 1 = 100) = (c = 24 \<and> d = 3)" using assms by linarith
  ultimately have m100: "(Y mod 100 = 0) = (c = 24 \<and> d = 3)" by simp
  have "Y = (100 * b + 4 * c + d + 1) + q * 400" by (simp add: Y_def)
  then have "Y mod 400 = (100 * b + 4 * c + d + 1) mod 400" by (simp only: mod_mult_self1)
  moreover have "((100 * b + 4 * c + d + 1) mod 400 = 0) = (100 * b + 4 * c + d + 1 = 400)"
    by (rule mod_zero_iff_top) (use assms in linarith)+
  moreover have "(100 * b + 4 * c + d + 1 = 400) = (b = 3 \<and> c = 24 \<and> d = 3)"
    using assms by linarith
  ultimately have m400: "(Y mod 400 = 0) = (b = 3 \<and> c = 24 \<and> d = 3)" by simp
  show ?thesis unfolding is_leap_def Y_def[symmetric] m4 m100 m400 by auto
qed

lemma ord2ymd_correct:
  "case ord2ymd n of (y, m, dd) \<Rightarrow>
     ymd2ord (y, m, dd) = n \<and> 1 \<le> m \<and> m \<le> 12 \<and> 1 \<le> dd \<and> dd \<le> days_in_month y m
     \<and> (1 \<le> n \<longrightarrow> 1 \<le> y)"
proof -
  define n0 where "n0 = n - 1"
  define q where "q = n0 div 146097"
  define r where "r = n0 mod 146097"
  define b where "b = r div 36524"
  define r2 where "r2 = r mod 36524"
  define c where "c = r2 div 1461"
  define r3 where "r3 = r2 mod 1461"
  define d where "d = r3 div 365"
  define k where "k = r3 mod 365"
  have e0: "n0 = 146097 * q + r" and r: "0 \<le> r" "r < 146097"
    by (simp_all add: q_def r_def)
  have e1: "r = 36524 * b + r2" and r2: "0 \<le> r2" "r2 < 36524"
    by (simp_all add: b_def r2_def)
  have e2: "r2 = 1461 * c + r3" and r3: "0 \<le> r3" "r3 < 1461"
    by (simp_all add: c_def r3_def)
  have e3: "r3 = 365 * d + k" and k: "0 \<le> k" "k < 365"
    by (simp_all add: d_def k_def)
  have b: "0 \<le> b" "b \<le> 4" using e1 r r2 by linarith+
  have c: "0 \<le> c" "c \<le> 24" using e2 r2 r3 by linarith+
  have d: "0 \<le> d" "d \<le> 4" using e3 r3 k by linarith+
  have q: "1 \<le> n \<longrightarrow> 0 \<le> q" using e0 r by (auto simp: n0_def)
  define leapyear where "leapyear = (d = 3 \<and> (c \<noteq> 24 \<or> b = 3))"
  define month where "month = (k + 50) div 32"
  define preceding where
    "preceding = DAYS_BEFORE_MONTH month + (if month > 2 \<and> leapyear then 1 else 0)"
  define md where
    "md = (if preceding > k
           then (month - 1,
                 k - (preceding - (DAYS_IN_MONTH (month - 1)
                                   + (if month - 1 = 2 \<and> leapyear then 1 else 0))) + 1)
           else (month, k - preceding + 1))"
  have "ord2ymd n =
      (if d = 4 \<or> b = 4 then (q * 400 + 1 + b * 100 + c * 4 + d - 1, 12, 31)
       else if preceding > k
         then (q * 400 + 1 + b * 100 + c * 4 + d, month - 1,
               k - (preceding - (DAYS_IN_MONTH (month - 1)
                                 + (if month - 1 = 2 \<and> leapyear then 1 else 0))) + 1)
         else (q * 400 + 1 + b * 100 + c * 4 + d, month, k - preceding + 1))"
    unfolding ord2ymd_def Let_def preceding_def month_def leapyear_def
          k_def d_def r3_def c_def r2_def b_def r_def q_def n0_def
    by (rule refl)
  then have unfolded: "ord2ymd n =
      (if d = 4 \<or> b = 4 then (400 * q + 100 * b + 4 * c + d, 12, 31)
       else (400 * q + 100 * b + 4 * c + d + 1, fst md, snd md))"
    by (simp add: md_def)
  show ?thesis
  proof (cases "b = 4")
    case True
    then have "r = 146096" "r2 = 0" using e1 r r2 by linarith+
    then have z: "c = 0" "d = 0" "k = 0" using e2 e3 r3 k c d by linarith+
    have Y: "400 * q + 100 * b + 4 * c + d = 400 * q + 100 * 3 + 4 * 24 + 3 + 1"
      using True z by simp
    have "days_before_year (400 * q + 100 * 3 + 4 * 24 + 3 + 1) = 146097 * q + 145731"
      by (subst days_before_year_decomp) simp_all
    moreover have "is_leap (400 * q + 100 * 3 + 4 * 24 + 3 + 1)"
      by (subst is_leap_decomp) simp_all
    ultimately show ?thesis
      using True q e0 \<open>r = 146096\<close> unfolding unfolded Y
      by (simp add: ymd2ord_def days_before_month_def days_in_month_def
            DAYS_BEFORE_MONTH_def DAYS_IN_MONTH_def n0_def)
  next
    case b4: False
    then have b3: "b \<le> 3" using b by simp
    show ?thesis
    proof (cases "d = 4")
      case True
      then have k0: "k = 0" using e3 r3 k by linarith
      have c23: "c \<le> 23" using e2 e3 r2 True k0 by linarith
      have Y: "400 * q + 100 * b + 4 * c + d = 400 * q + 100 * b + 4 * c + 3 + 1"
        using True by simp
      have "days_before_year (400 * q + 100 * b + 4 * c + 3 + 1)
              = 146097 * q + 36524 * b + 1461 * c + 365 * 3"
        using b b3 c by (subst days_before_year_decomp) simp_all
      moreover have "is_leap (400 * q + 100 * b + 4 * c + 3 + 1)"
        using b b3 c c23 by (subst is_leap_decomp) simp_all
      ultimately show ?thesis
        using True q b c e0 e1 e2 e3 k0 unfolding unfolded Y
        by (simp add: ymd2ord_def days_before_month_def days_in_month_def
              DAYS_BEFORE_MONTH_def DAYS_IN_MONTH_def n0_def)
    next
      case False
      then have d3: "d \<le> 3" using d by simp
      have dby: "days_before_year (400 * q + 100 * b + 4 * c + d + 1)
              = 146097 * q + 36524 * b + 1461 * c + 365 * d"
        using b b3 c d d3 by (subst days_before_year_decomp) simp_all
      have leap: "is_leap (400 * q + 100 * b + 4 * c + d + 1) = leapyear"
        unfolding leapyear_def using b b3 c d d3 by (subst is_leap_decomp) simp_all
      have md: "1 \<le> fst md \<and> fst md \<le> 12 \<and> 1 \<le> snd md
         \<and> snd md \<le> (if fst md = 2 \<and> leapyear then 29 else DAYS_IN_MONTH (fst md))
         \<and> DAYS_BEFORE_MONTH (fst md) + (if fst md > 2 \<and> leapyear then 1 else 0) + snd md = k + 1"
        unfolding md_def preceding_def month_def using k by (rule month_day)
      obtain m dd where mdeq: "md = (m, dd)" by (cases md)
      have md2: "1 \<le> m \<and> m \<le> 12 \<and> 1 \<le> dd
         \<and> dd \<le> (if m = 2 \<and> leapyear then 29 else DAYS_IN_MONTH m)
         \<and> DAYS_BEFORE_MONTH m + (if m > 2 \<and> leapyear then 1 else 0) + dd = k + 1"
        using md unfolding mdeq fst_conv snd_conv .
      have sum: "DAYS_BEFORE_MONTH m + (if m > 2 \<and> leapyear then 1 else 0) + dd = k + 1"
        using md2 by simp
      have "n = 146097 * q + 36524 * b + 1461 * c + 365 * d + k + 1"
        using e0 e1 e2 e3 by (simp add: n0_def)
      then have "ymd2ord (400 * q + 100 * b + 4 * c + d + 1, m, dd) = n"
        using sum by (simp add: ymd2ord_def dby leap days_before_month_def)
      moreover have "dd \<le> days_in_month (400 * q + 100 * b + 4 * c + d + 1) m"
        using md2 by (simp add: days_in_month_def leap)
      moreover have "1 \<le> n \<longrightarrow> 1 \<le> 400 * q + 100 * b + 4 * c + d + 1"
        using q b c d by auto
      ultimately show ?thesis using b4 False md2 unfolding unfolded by (simp add: mdeq)
    qed
  qed
qed

lemma year_upper:
  assumes "days_before_year y \<le> 3652058"
  shows "y \<le> 9999"
proof (rule ccontr)
  assume "\<not> y \<le> 9999"
  then have y: "9999 \<le> y - 1" by simp
  define A where "A = (y - 1) div 4"
  define B where "B = (y - 1) div 100"
  define C where "C = (y - 1) div 400"
  have "y - 1 = 4 * A + (y - 1) mod 4" "(y - 1) mod 4 < 4" by (simp_all add: A_def)
  then have a: "(y - 1) - 3 \<le> 4 * A" by linarith
  have "y - 1 = 100 * B + (y - 1) mod 100" "0 \<le> (y - 1) mod 100" by (simp_all add: B_def)
  then have b: "100 * B \<le> y - 1" by linarith
  have "y - 1 = 400 * C + (y - 1) mod 400" "(y - 1) mod 400 < 400" by (simp_all add: C_def)
  then have c: "(y - 1) - 399 \<le> 400 * C" by linarith
  have "days_before_year y = (y - 1) * 365 + A - B + C"
    by (simp add: days_before_year_def Let_def A_def B_def C_def)
  then have "400 * days_before_year y = 146000 * (y - 1) + 400 * A - 400 * B + 400 * C"
    by (simp add: algebra_simps)
  moreover have "100 * (y - 1) - 300 \<le> 400 * A" using a by simp
  moreover have "400 * B \<le> 4 * (y - 1)" using b by simp
  ultimately have "146097 * (y - 1) - 699 \<le> 400 * days_before_year y" using c by simp
  moreover have "146097 * 9999 \<le> 146097 * (y - 1)" using y by simp
  ultimately show False using assms by simp
qed

lemma days_before_month_nonneg: "1 \<le> m \<Longrightarrow> m \<le> 12 \<Longrightarrow> 0 \<le> days_before_month y m"
proof -
  assume "1 \<le> m" "m \<le> 12"
  then have "m = 1 \<or> m = 2 \<or> m = 3 \<or> m = 4 \<or> m = 5 \<or> m = 6
      \<or> m = 7 \<or> m = 8 \<or> m = 9 \<or> m = 10 \<or> m = 11 \<or> m = 12"
    by presburger
  then show ?thesis
    by (auto simp: days_before_month_def DAYS_BEFORE_MONTH_def)
qed

text \<open>
  Claim C4 (amended). The conversion is a function of the offset: offset 0 gives
  1960-01-01, offset 1 gives 1960-01-02, and every offset \<open>n\<close> from -715509 to 2936549
  gives the calendar date whose day number is that of 1960-01-01 plus \<open>n\<close>, a date of
  the years 1 to 9999. Every other offset raises \<open>OverflowError\<close>; no offset wraps
  around.
\<close>

theorem date_add_days:
  "date_add 0 = Inr (1960, 1, 1) \<and> date_add 1 = Inr (1960, 1, 2)
   \<and> (- 715509 \<le> n \<and> n \<le> 2936549 \<longrightarrow>
        (\<exists>d. date_add n = Inr d \<and> valid_date d \<and> ymd2ord d = ymd2ord epoch + n))
   \<and> (n < - 715509 \<or> 2936549 < n \<longrightarrow> date_add n = Inl OverflowError)"
proof (intro conjI impI)
  show "date_add 0 = Inr (1960, 1, 1)"
    by (simp add: date_add_def ymd2ord_epoch MAXORDINAL_def ord2ymd_eval)
  show "date_add 1 = Inr (1960, 1, 2)"
    by (simp add: date_add_def ymd2ord_epoch MAXORDINAL_def ord2ymd_eval)
  show "date_add n = Inl OverflowError" if "n < - 715509 \<or> 2936549 < n"
    using that by (auto simp: date_add_def ymd2ord_epoch MAXORDINAL_def)
  show "\<exists>d. date_add n = Inr d \<and> valid_date d \<and> ymd2ord d = ymd2ord epoch + n"
    if range: "- 715509 \<le> n \<and> n \<le> 2936549"
  proof -
    define ordinal where "ordinal = 715510 + n"
    have ord: "1 \<le> ordinal" "ordinal \<le> 3652059" using range by (simp_all add: ordinal_def)
    obtain y m dd where res: "ord2ymd ordinal = (y, m, dd)" by (cases "ord2ymd ordinal")
    have c: "ymd2ord (y, m, dd) = ordinal \<and> 1 \<le> m \<and> m \<le> 12 \<and> 1 \<le> dd
             \<and> dd \<le> days_in_month y m \<and> (1 \<le> ordinal \<longrightarrow> 1 \<le> y)"
      using ord2ymd_correct[of ordinal] by (simp add: res)
    have "0 \<le> days_before_month y m" using c by (intro days_before_month_nonneg) simp_all
    then have "days_before_year y \<le> 3652058" using c ord by (simp add: ymd2ord_def)
    then have "y \<le> 9999" by (rule year_upper)
    then have "valid_date (y, m, dd)" using c ord by (simp add: valid_date_def)
    moreover have "\<not> \<bar>n\<bar> > 999999999" using range by linarith
    then have "date_add n = Inr (y, m, dd)"
      using ord res by (simp add: date_add_def ymd2ord_epoch MAXORDINAL_def ordinal_def)
    ultimately show ?thesis using c by (auto simp: ymd2ord_epoch ordinal_def)
  qed
qed

text \<open>The amended claim C4 at the offsets 366 and -715510.\<close>

theorem date_add_days_witness:
  "date_add 366 = Inr (1961, 1, 1) \<and> valid_date (1961, 1, 1)
   \<and> ymd2ord (1961, 1, 1) = ymd2ord epoch + 366 \<and> date_add (- 715510) = Inl OverflowError"
proof -
  have v: "date_add 366 = Inr (1961, 1, 1)"
    by (simp add: date_add_def ymd2ord_epoch MAXORDINAL_def ord2ymd_eval)
  show ?thesis using date_add_days [of 366] date_add_days [of "- 715510"] v by simp
qed

text \<open>Claim C4 as stated fails at the offset 3000000, a day of the year 10173: the
  conversion raises and gives no date.\<close>

theorem date_add_counterexample:
  "date_add 3000000 = Inl OverflowError"
  by (simp add: date_add_def ymd2ord_epoch MAXORDINAL_def)

section \<open>Properties of the race distribution\<close>

lemma sum_by_key:
  fixes c :: "'r \<Rightarrow> int"
  assumes "distinct ks"
  shows "(\<forall>r\<in>set rows. key r \<in> set ks) \<Longrightarrow>
         (\<Sum>k\<leftarrow>ks. \<Sum>r\<leftarrow>filter (\<lambda>r. key r = k) rows. c r) = (\<Sum>r\<leftarrow>rows. c r)"
proof (induction rows)
  case Nil then show ?case by simp
next
  case (Cons r rows)
  have "(\<Sum>k\<leftarrow>ks. \<Sum>r'\<leftarrow>filter (\<lambda>r'. key r' = k) (r # rows). c r')
        = (\<Sum>k\<leftarrow>ks. (if key r = k then c r else 0) + (\<Sum>r'\<leftarrow>filter (\<lambda>r'. key r' = k) rows. c r'))"
    by (intro arg_cong[where f=sum_list] map_cong) auto
  also have "\<dots> = (\<Sum>k\<leftarrow>ks. (if key r = k then c r else 0)) + (\<Sum>k\<leftarrow>ks. \<Sum>r'\<leftarrow>filter (\<lambda>r'. key r' = k) rows. c r')"
    by (simp add: sum_list_addf)
  also have "(\<Sum>k\<leftarrow>ks. (if key r = k then c r else 0)) = c r"
    using assms Cons.prems by (simp add: sum_list_distinct_conv_sum_set sum.delta')
  finally show ?case using Cons by simp
qed

lemma of_int_sum_list_map: "(of_int (sum_list (map f xs)) :: rat) = sum_list (map (\<lambda>x. of_int (f x)) xs)"
  by (induction xs) auto

lemma sum_list_divide: "sum_list (map (\<lambda>x. f x / (c::rat)) xs) = sum_list (map f xs) / c"
  by (induction xs) (auto simp: add_divide_distrib)

lemma set_map_filter: "set (List.map_filter f xs) = {y. \<exists>x\<in>set xs. f x = Some y}"
  by (induction xs) (auto simp: List.map_filter_simps split: option.splits)

lemma map_of_keyed: "k \<in> set ks \<Longrightarrow> map_of (map (\<lambda>k. (k, f k)) ks) k = Some (f k)"
  by (induction ks) auto

lemma filter_unique_key:
  "distinct (map kr R) \<Longrightarrow>
     filter (\<lambda>r. kr r = k) R = (case find (\<lambda>r. kr r = k) R of None \<Rightarrow> [] | Some r \<Rightarrow> [r])"
proof (induction R)
  case Nil
  show ?case by simp
next
  case (Cons a R)
  show ?case
  proof (cases "kr a = k")
    case True
    then have "filter (\<lambda>r. kr r = k) R = []"
      using Cons.prems by (auto simp: filter_empty_conv image_iff)
    then show ?thesis using True by simp
  next
    case False
    then show ?thesis using Cons by simp
  qed
qed

lemma merge_left_unique:
  assumes "distinct (map kr R)"
  shows "merge_left kl kr L R = map (\<lambda>l. (l, find (\<lambda>r. kr r = kl l) R)) L"
  by (induction L)
     (simp_all add: merge_left_def filter_unique_key[OF assms] split: option.splits)

lemma find_map_of: "map_option snd (find (\<lambda>r. fst r = k) R) = map_of R k"
  by (induction R) auto

text \<open>With the state totals unique by state code, the join looks the total up.\<close>

lemma df_demo_race_dwh_lookup:
  "df_demo_race_dwh df =
     map (\<lambda>(k, n). (k, case map_of (count_by_state df) (fst k) of
                          None \<Rightarrow> None
                        | Some count_total \<Rightarrow> if count_total = 0 then None
                                         else Some (of_int n / of_int count_total)))
         (count_by_state_race df)"
proof -
  have d: "distinct (map fst (count_by_state df))"
    by (simp add: count_by_state_def o_def)
  have "(case find (\<lambda>r. fst r = s) R of
           None \<Rightarrow> None
         | Some (s', count_total) \<Rightarrow> if count_total = 0 then None
                                   else Some (of_int n / of_int count_total))
        = (case map_of R s of
             None \<Rightarrow> None
           | Some count_total \<Rightarrow> if count_total = 0 then (None :: rat option)
                              else Some (of_int n / of_int count_total))"
    for s :: string and R :: "(string \<times> int) list" and n :: int
    unfolding find_map_of[symmetric]
    by (cases "find (\<lambda>r. fst r = s) R") auto
  then show ?thesis
    by (simp add: df_demo_race_dwh_def merge_left_unique[OF d] o_def case_prod_beta)
qed

text \<open>
  Claim C8 (amended). For a state code whose summed count is not zero and none of whose
  rows lacks a race, the fractions of the state's rows in the race distribution sum to
  exactly 1 over the rationals. A row without a race counts towards the state's total
  but belongs to no (state, race) group.
\<close>

theorem race_fractions_sum_to_one:
  assumes total: "count_sum (filter (\<lambda>r. state_code r = Some s) df) \<noteq> 0"
    and races: "\<forall>r\<in>set df. state_code r = Some s \<longrightarrow> race r \<noteq> None"
  shows "fraction_sum s (df_demo_race_dwh df) = 1"
proof -
  define T where "T = count_sum (filter (\<lambda>r. state_code r = Some s) df)"
  define K where "K = sort (remdups (List.map_filter state_race_key df))"
  define Ks where "Ks = filter (\<lambda>k. fst k = s) K"
  define rows where "rows = filter (\<lambda>r. state_code r = Some s) df"
  define key where "key = (\<lambda>r::demo_row. (s, the (race r)))"
  define c where "c = (\<lambda>r::demo_row. case count r of None \<Rightarrow> (0::int) | Some n \<Rightarrow> n)"
  have T0: "T \<noteq> 0" using total by (simp add: T_def)
  have setK: "set K = {k. \<exists>r\<in>set df. state_race_key r = Some k}"
    by (simp add: K_def set_map_filter)
  have dK: "distinct Ks" by (simp add: Ks_def K_def)
  have "rows \<noteq> []" using T0 by (auto simp: T_def rows_def count_sum_def)
  then obtain r0 where "r0 \<in> set rows" by (cases rows) auto
  then have "r0 \<in> set df" "state_code r0 = Some s" by (auto simp: rows_def)
  then have "s \<in> set (sort (remdups (List.map_filter state_code df)))"
    by (auto simp: set_map_filter)
  then have look: "map_of (count_by_state df) s = Some T"
    unfolding count_by_state_def T_def by (rule map_of_keyed)
  have cnt: "count_sum (filter (\<lambda>r. state_race_key r = Some k) df)
             = sum_list (map c (filter (\<lambda>r. key r = k) rows))" if "fst k = s" for k
  proof -
    have "filter (\<lambda>r. state_race_key r = Some k) df
          = filter (\<lambda>r. state_code r = Some s \<and> key r = k) df"
    proof (rule filter_cong[OF refl])
      fix r assume "r \<in> set df"
      with races that show "(state_race_key r = Some k) = (state_code r = Some s \<and> key r = k)"
        by (cases k) (auto simp: state_race_key_def key_def split: option.splits)
    qed
    then show ?thesis by (simp add: rows_def count_sum_def c_def conj_commute)
  qed
  have cover: "\<forall>r\<in>set rows. key r \<in> set Ks"
  proof
    fix r assume "r \<in> set rows"
    then have r: "r \<in> set df" "state_code r = Some s" by (auto simp: rows_def)
    with races obtain x where x: "race r = Some x" by auto
    have "state_race_key r = Some (s, x)" using r x by (simp add: state_race_key_def)
    with r have "(s, x) \<in> set K" unfolding setK by auto
    then show "key r \<in> set Ks" using x by (simp add: Ks_def key_def)
  qed
  have sumT: "(\<Sum>k\<leftarrow>Ks. sum_list (map c (filter (\<lambda>r. key r = k) rows))) = T"
    using sum_by_key[OF dK cover, of c] by (simp add: T_def rows_def count_sum_def c_def)
  have "fraction_sum s (df_demo_race_dwh df)
        = (\<Sum>k\<leftarrow>Ks. of_int (count_sum (filter (\<lambda>r. state_race_key r = Some k) df)) / of_int T)"
  proof -
    have "filter (\<lambda>(k, f). fst k = s) (df_demo_race_dwh df)
          = map (\<lambda>k. (k, Some (of_int (count_sum (filter (\<lambda>r. state_race_key r = Some k) df)) / of_int T))) Ks"
      unfolding df_demo_race_dwh_lookup count_by_state_race_def Ks_def K_def[symmetric]
      by (induction K) (auto simp: look T0)
    then show ?thesis by (simp add: fraction_sum_def o_def)
  qed
  also have "\<dots> = (\<Sum>k\<leftarrow>Ks. of_int (sum_list (map c (filter (\<lambda>r. key r = k) rows))) / of_int T)"
    by (intro arg_cong[where f=sum_list] map_cong refl) (simp add: cnt Ks_def)
  also have "\<dots> = of_int T / of_int T"
    by (simp add: sum_list_divide sumT flip: of_int_sum_list_map)
  finally show ?thesis using T0 by simp
qed

text \<open>The amended claim C8 at a table with two races in one state.\<close>

theorem race_fractions_sum_to_one_witness:
  "fraction_sum ''CA'' (df_demo_race_dwh
      [demo_city (Some ''CA'') (Some ''White'') (Some 3),
       demo_city (Some ''CA'') (Some ''Asian'') (Some 1),
       demo_city (Some ''AL'') None (Some 1)]) = 1"
  by (rule race_fractions_sum_to_one) (simp_all add: count_sum_def demo_city_def)

text \<open>Claim C8 as stated fails: with a row of the state that has no race, the state's
  total is not zero and its fractions sum to 3/4.\<close>

theorem race_fractions_counterexample:
  "count_sum (filter (\<lambda>r. state_code r = Some ''CA'')
      [demo_city (Some ''CA'') (Some ''White'') (Some 3), demo_city (Some ''CA'') None (Some 1)]) \<noteq> 0
   \<and> fraction_sum ''CA'' (df_demo_race_dwh
      [demo_city (Some ''CA'') (Some ''White'') (Some 3), demo_city (Some ''CA'') None (Some 1)]) \<noteq> 1"
  by (simp add: fraction_sum_def df_demo_race_dwh_lookup count_by_state_def count_by_state_race_def
        count_sum_def state_race_key_def demo_city_def List.map_filter_simps)

section \<open>Properties of the dictionary parser\<close>


































end
